theory Spec2Isabelle
  imports Main "HOL-Library.AList"
begin

section \<open>Go runtime values used by the crawler\<close>

text \<open>
  Every run-time panic and fatal exit of the program is a value of \<open>error\<close>; a function
  that can panic returns \<open>error + 'a\<close> with \<open>Inl\<close> for the panic.
\<close>

datatype error =
    NilMapAssignment          \<comment> \<open>panic: assignment to entry in nil map\<close>
  | ChanSizeOutOfRange        \<comment> \<open>panic: makechan: size out of range\<close>
  | MissingHandler            \<comment> \<open>panic(errors.New("scheduler missing handler"))\<close>
  | IndexOutOfRange           \<comment> \<open>panic: index out of range\<close>
  | SanitiseFailed string     \<comment> \<open>log.Fatal(err) in Crawl\<close>

text \<open>
  A Go \<open>map[string]bool\<close>. \<open>None\<close> is the nil map (the zero value of the type),
  \<open>Some kvs\<close> an allocated map holding the entries \<open>kvs\<close>. Go leaves the iteration order
  of a map unspecified; the model keeps the entries in insertion order, and every statement
  below about the keys of a map is about their set or their number only.
\<close>

type_synonym gomap = "(string \<times> bool) list option"

definition make_map :: gomap where
  "make_map = Some []"

text \<open>\<open>_, ok := m[k]\<close>: reading a nil map is allowed and finds nothing.\<close>

definition map_ok :: "gomap \<Rightarrow> string \<Rightarrow> bool" where
  "map_ok m k = (case m of None \<Rightarrow> False | Some kvs \<Rightarrow> map_of kvs k \<noteq> None)"

text \<open>\<open>m[k] = v\<close>: writing to a nil map panics.\<close>

definition map_assign :: "gomap \<Rightarrow> string \<Rightarrow> bool \<Rightarrow> error + gomap" where
  "map_assign m k v =
     (case m of None \<Rightarrow> Inl NilMapAssignment
      | Some kvs \<Rightarrow> Inr (Some (AList.update k v kvs)))"

text \<open>\<open>len(m)\<close>: the length of a nil map is 0.\<close>

definition map_len :: "gomap \<Rightarrow> nat" where
  "map_len m = (case m of None \<Rightarrow> 0 | Some kvs \<Rightarrow> length kvs)"

text \<open>\<open>for k := range m\<close>: ranging over a nil map runs the body zero times.\<close>

definition map_range :: "gomap \<Rightarrow> string list" where
  "map_range m = (case m of None \<Rightarrow> [] | Some kvs \<Rightarrow> map fst kvs)"

section \<open>crawler/hash\_set.go\<close>

text \<open>
  The struct \<open>hashSet\<close>. Its \<open>sync.RWMutex\<close> is held for the whole of every method, so
  a method is one atomic transition of the set and the lock has no state of its own between
  two calls; the record keeps the field \<open>data\<close> only.
\<close>

record hashSet =
  data :: gomap

text \<open>The zero value \<open>hashSet{}\<close>: a nil map.\<close>

definition zero_hashSet :: hashSet where
  "zero_hashSet = \<lparr>data = None\<rparr>"

definition add :: "string \<Rightarrow> hashSet \<Rightarrow> error + hashSet" where
  "add t s =
     (let s1 = (if data s = None then s\<lparr>data := make_map\<rparr> else s) in
      if \<not> map_ok (data s1) t
      then (case map_assign (data s1) t True of
              Inl e \<Rightarrow> Inl e
            | Inr m \<Rightarrow> Inr (s1\<lparr>data := m\<rparr>))
      else Inr s1)"

text \<open>The body of the \<open>for _, t := range a\<close> loop of \<open>addSlice\<close>, on the map.\<close>

fun addSlice_loop :: "string list \<Rightarrow> gomap \<Rightarrow> error + gomap" where
  "addSlice_loop [] m = Inr m"
| "addSlice_loop (t # ts) m =
     (if \<not> map_ok m t
      then (case map_assign m t True of
              Inl e \<Rightarrow> Inl e
            | Inr m' \<Rightarrow> addSlice_loop ts m')
      else addSlice_loop ts m)"

definition addSlice :: "string list \<Rightarrow> hashSet \<Rightarrow> error + hashSet" where
  "addSlice a s =
     (let s1 = (if data s = None then s\<lparr>data := make_map\<rparr> else s) in
      case addSlice_loop a (data s1) of
        Inl e \<Rightarrow> Inl e
      | Inr m \<Rightarrow> Inr (s1\<lparr>data := m\<rparr>))"

definition has :: "hashSet \<Rightarrow> string \<Rightarrow> bool" where
  "has s element = map_ok (data s) element"

definition slice :: "hashSet \<Rightarrow> string list" where
  "slice s = map_range (data s)"

definition size_hashSet :: "hashSet \<Rightarrow> nat" where
  "size_hashSet s = map_len (data s)"

text \<open>Sequencing of calls that may panic: the first panic ends the sequence.\<close>

definition and_then :: "error + 'a \<Rightarrow> ('a \<Rightarrow> error + 'b) \<Rightarrow> error + 'b" where
  "and_then r f = (case r of Inl e \<Rightarrow> Inl e | Inr x \<Rightarrow> f x)"

text \<open>A caller's sequence of inserts into one set.\<close>

datatype set_call = Add string | AddAll "string list"

fun call_items :: "set_call \<Rightarrow> string list" where
  "call_items (Add t) = [t]"
| "call_items (AddAll a) = a"

fun run_call :: "set_call \<Rightarrow> hashSet \<Rightarrow> error + hashSet" where
  "run_call (Add t) s = add t s"
| "run_call (AddAll a) s = addSlice a s"

fun run_calls :: "set_call list \<Rightarrow> hashSet \<Rightarrow> error + hashSet" where
  "run_calls [] s = Inr s"
| "run_calls (c # cs) s = and_then (run_call c s) (run_calls cs)"

section \<open>Channels\<close>

text \<open>
  A buffered Go channel: its capacity and the values waiting in its buffer, oldest first.
  \<open>make(chan T, n)\<close> panics at run time when \<open>n\<close> is negative and makes an
  unbuffered channel when \<open>n\<close> is 0.
\<close>

record 'a chan =
  cap :: nat
  buf :: "'a list"

definition make_chan :: "int \<Rightarrow> error + 'a chan" where
  "make_chan n = (if n < 0 then Inl ChanSizeOutOfRange else Inr \<lparr>cap = nat n, buf = []\<rparr>)"

text \<open>
  \<open>ch <- v\<close> on a buffered channel: \<open>None\<close> when the buffer is full, where the
  sender blocks until a receiver takes a value.
\<close>

definition chan_send :: "'a chan \<Rightarrow> 'a \<Rightarrow> 'a chan option" where
  "chan_send ch v = (if length (buf ch) < cap ch then Some (ch\<lparr>buf := buf ch @ [v]\<rparr>) else None)"

text \<open>\<open><-ch\<close>: \<open>None\<close> when the buffer is empty, where the case of a select is not ready.\<close>

definition chan_recv :: "'a chan \<Rightarrow> ('a \<times> 'a chan) option" where
  "chan_recv ch = (case buf ch of [] \<Rightarrow> None | v # vs \<Rightarrow> Some (v, ch\<lparr>buf := vs\<rparr>))"

text \<open>
  The delivery of package \<open>os/signal\<close> to a channel registered with \<open>signal.Notify\<close>:
  it never blocks, a signal that finds the buffer full is dropped.
\<close>

definition chan_notify :: "'a chan \<Rightarrow> 'a \<Rightarrow> 'a chan" where
  "chan_notify ch v = (case chan_send ch v of None \<Rightarrow> ch | Some ch' \<Rightarrow> ch')"

section \<open>The scheduler\<close>

record SchedulerOptions =
  MaxWorkers :: int
  Interactive :: bool

text \<open>
  A worker: its \<open>id\<close> (here \<open>worker_id\<close>) and \<open>reportState\<close>. Its handler is the
  scheduler's, and its channels carry no value while no goroutine runs.
\<close>

record worker =
  worker_id :: int
  reportState :: bool

text \<open>
  The struct \<open>Scheduler[T]\<close>, for tasks of type \<open>'a\<close> and a handler of type \<open>'h\<close>;
  \<open>handler = None\<close> is the nil func.
\<close>

record ('a, 'h) Scheduler =
  WorkerState :: "(int \<times> 'a) chan"
  workers :: "worker list"
  workerPool :: "worker chan"
  quit :: bool
  handler :: "'h option"
  inputQueue :: "'a list"
  opts :: SchedulerOptions

definition NewScheduler :: "SchedulerOptions \<Rightarrow> error + ('a, 'h) Scheduler" where
  "NewScheduler os =
     (case make_chan (SchedulerOptions.MaxWorkers os) of
        Inl e \<Rightarrow> Inl e
      | Inr ws \<Rightarrow>
          (case make_chan (SchedulerOptions.MaxWorkers os) of
             Inl e \<Rightarrow> Inl e
           | Inr wp \<Rightarrow>
               Inr \<lparr>WorkerState = ws, workers = [], workerPool = wp, quit = False,
                    handler = None, inputQueue = [], opts = os\<rparr>))"

definition newWorker :: "int \<Rightarrow> bool \<Rightarrow> worker" where
  "newWorker i rs = \<lparr>worker_id = i, reportState = rs\<rparr>"

definition WithHandler :: "'h \<Rightarrow> ('a, 'h) Scheduler \<Rightarrow> ('a, 'h) Scheduler" where
  "WithHandler h s =
     s\<lparr>handler := Some h,
       workers := workers s @
         map (\<lambda>i. newWorker (int i) (SchedulerOptions.Interactive (opts s)))
           [0 ..< nat (SchedulerOptions.MaxWorkers (opts s))]\<rparr>"

text \<open>
  \<open>s.inputQueue = append(s.inputQueue, t)\<close> takes no lock: it reads the shared slice,
  appends to what it read and writes the result back. \<open>enqueue\<close> is the two steps run
  without interruption.
\<close>

definition enqueue_load :: "('a, 'h) Scheduler \<Rightarrow> 'a list" where
  "enqueue_load s = inputQueue s"

definition enqueue_store :: "'a list \<Rightarrow> 'a \<Rightarrow> ('a, 'h) Scheduler \<Rightarrow> ('a, 'h) Scheduler" where
  "enqueue_store q t s = s\<lparr>inputQueue := q @ [t]\<rparr>"

definition enqueue :: "'a \<Rightarrow> ('a, 'h) Scheduler \<Rightarrow> ('a, 'h) Scheduler" where
  "enqueue t s = enqueue_store (enqueue_load s) t s"

definition Dispatch :: "'a list \<Rightarrow> ('a, 'h) Scheduler \<Rightarrow> ('a, 'h) Scheduler" where
  "Dispatch tasks s = fold enqueue tasks s"

text \<open>\<open>dequeue\<close> indexes the slice at 0, which panics on an empty queue.\<close>

definition dequeue :: "('a, 'h) Scheduler \<Rightarrow> error + ('a \<times> ('a, 'h) Scheduler)" where
  "dequeue s =
     (case inputQueue s of
        [] \<Rightarrow> Inl IndexOutOfRange
      | t # q \<Rightarrow> Inr (t, s\<lparr>inputQueue := q\<rparr>))"

text \<open>
  \<open>Start\<close> panics when no handler is bound; otherwise it launches the goroutines of the
  workers and of the dispatch loop, which changes no field of the scheduler.
\<close>

definition Start :: "('a, 'h) Scheduler \<Rightarrow> error + ('a, 'h) Scheduler" where
  "Start s = (if handler s = None then Inl MissingHandler else Inr s)"

text \<open>\<open>Stop\<close> sets \<open>quit\<close> and waits until every worker has taken its quit message.\<close>

definition Stop :: "('a, 'h) Scheduler \<Rightarrow> ('a, 'h) Scheduler" where
  "Stop s = s\<lparr>quit := True\<rparr>"

subsection \<open>Two goroutines in Dispatch\<close>

text \<open>
  Handlers run on several workers and each ends in \<open>Dispatch\<close>. A producer is a goroutine
  inside \<open>Dispatch\<close>: the tasks it still has to enqueue and, between the two steps of
  \<open>enqueue\<close>, the slice it has read. A schedule names, step by step, the producer that
  moves next.
\<close>

record 'a producer =
  pending :: "'a list"
  loaded :: "'a list option"

definition producer_step ::
  "'a producer \<Rightarrow> ('a, 'h) Scheduler \<Rightarrow> 'a producer \<times> ('a, 'h) Scheduler" where
  "producer_step p s =
     (case pending p of
        [] \<Rightarrow> (p, s)
      | t # ts \<Rightarrow>
          (case loaded p of
             None \<Rightarrow> (p\<lparr>loaded := Some (enqueue_load s)\<rparr>, s)
           | Some q \<Rightarrow> (p\<lparr>pending := ts, loaded := None\<rparr>, enqueue_store q t s)))"

fun run_schedule ::
  "nat list \<Rightarrow> 'a producer list \<times> ('a, 'h) Scheduler \<Rightarrow> 'a producer list \<times> ('a, 'h) Scheduler" where
  "run_schedule [] st = st"
| "run_schedule (i # is) (ps, s) =
     (if i < length ps
      then (case producer_step (ps ! i) s of (p', s') \<Rightarrow> run_schedule is (ps[i := p'], s'))
      else run_schedule is (ps, s))"

definition in_Dispatch :: "'a list \<Rightarrow> 'a producer" where
  "in_Dispatch tasks = \<lparr>pending = tasks, loaded = None\<rparr>"

section \<open>The crawler\<close>

text \<open>
  What \<open>parser.ParseLinks\<close> returns: a \<open>ParserOutput\<close> and an error, \<open>None\<close> for nil.
  The call fetches a page over the network, so the crawler is modelled for an arbitrary
  parser, given as a function of the URL. \<open>parser.SanitiseUrl\<close> rests on the URL
  parser of the standard library and is a parameter as well, \<open>Inl\<close> its error.
\<close>

record ParserOutput =
  Links :: "string list"
  Status :: string
  StatusCode :: int

type_synonym parse_result = "ParserOutput \<times> string option"

text \<open>
  \<open>CrawlerOptions\<close>: the two fields the scheduler and the event loop read. The output
  format, the output file and the parser's filters do not reach the code modelled here.
\<close>

record CrawlerOptions =
  MaxWorkers :: int
  Interactive :: bool

record crawlerResult =
  URL :: string
  Status :: int
  Error :: string
  Count :: int
  Links :: "string list"

datatype signal = SIGINT | SIGQUIT | SIGTERM

fun signum :: "signal \<Rightarrow> int" where
  "signum SIGINT = 2"
| "signum SIGQUIT = 3"
| "signum SIGTERM = 15"

text \<open>
  The struct \<open>Crawler\<close>. The scheduler's handler is the method value \<open>c.handler\<close>,
  here the unit value; the parser is the parameter of \<open>handler\<close>; the ticker and the
  terminal UI hold no state the crawl depends on.
\<close>

record Crawler =
  scheduler :: "(string, unit) Scheduler"
  cache :: hashSet
  visited :: hashSet
  opts :: CrawlerOptions
  result :: "crawlerResult list"
  quit :: "signal chan"

definition NewCrawler :: "CrawlerOptions \<Rightarrow> error + Crawler" where
  "NewCrawler os =
     (case NewScheduler \<lparr>SchedulerOptions.MaxWorkers = CrawlerOptions.MaxWorkers os,
                         SchedulerOptions.Interactive = CrawlerOptions.Interactive os\<rparr> of
        Inl e \<Rightarrow> Inl e
      | Inr sch \<Rightarrow>
          (case make_chan 1 of
             Inl e \<Rightarrow> Inl e
           | Inr q \<Rightarrow>
               Inr \<lparr>scheduler = WithHandler () sch, cache = zero_hashSet,
                    visited = zero_hashSet, opts = os, result = [], quit = q\<rparr>))"

text \<open>
  \<open>NewCrawler\<close> above leaves out the terminal UI of the interactive mode and the
  registration of the channel \<open>quit\<close> with \<open>signal.Notify\<close>, whose deliveries are
  events of the loop below.

  \<open>Crawl\<close> up to its last statement: it starts the scheduler, sanitises the URL (a
  failure is \<open>log.Fatal\<close>), puts the seed into \<open>cache\<close> and dispatches it. The last
  statement is the call of \<open>run\<close>, modelled below.
\<close>

definition Crawl :: "(string \<Rightarrow> string + string) \<Rightarrow> string \<Rightarrow> Crawler \<Rightarrow> error + Crawler" where
  "Crawl SanitiseUrl url c =
     (case Start (scheduler c) of
        Inl e \<Rightarrow> Inl e
      | Inr sch \<Rightarrow>
          (case SanitiseUrl url of
             Inl msg \<Rightarrow> Inl (SanitiseFailed msg)
           | Inr input \<Rightarrow>
               (case add input (cache c) of
                  Inl e \<Rightarrow> Inl e
                | Inr ca \<Rightarrow> Inr (c\<lparr>cache := ca, scheduler := Dispatch [input] sch\<rparr>))))"

text \<open>The loop of \<open>handler\<close> that keeps the links not found in the slice \<open>visited\<close>.\<close>

fun nonVisited :: "string list \<Rightarrow> string list \<Rightarrow> string list" where
  "nonVisited vs [] = []"
| "nonVisited vs (link # links) =
     (if link \<in> set vs then nonVisited vs links else link # nonVisited vs links)"

definition new_result :: "string \<Rightarrow> ParserOutput \<Rightarrow> crawlerResult" where
  "new_result input output =
     \<lparr>URL = input, Status = StatusCode output, Error = [],
      Count = int (length (ParserOutput.Links output)), Links = ParserOutput.Links output\<rparr>"

text \<open>
  \<open>handler\<close>, run from its first statement to its return with no other goroutine in
  between. Logging is left out.
\<close>

definition handler :: "(string \<Rightarrow> parse_result) \<Rightarrow> string \<Rightarrow> Crawler \<Rightarrow> error + Crawler" where
  "handler ParseLinks input c =
     (if has (visited c) input then Inr c
      else
        (case ParseLinks input of (output, err) \<Rightarrow>
          (case add input (visited c) of
             Inl e \<Rightarrow> Inl e
           | Inr v \<Rightarrow>
               (if err \<noteq> None then Inr (c\<lparr>visited := v\<rparr>)
                else
                  (let c1 = c\<lparr>visited := v, result := result c @ [new_result input output]\<rparr>;
                       nonVisitedLinks = nonVisited (slice (visited c1)) (ParserOutput.Links output)
                   in case addSlice nonVisitedLinks (cache c1) of
                        Inl e \<Rightarrow> Inl e
                      | Inr ca \<Rightarrow>
                          Inr (c1\<lparr>cache := ca,
                                  scheduler := Dispatch (ParserOutput.Links output) (scheduler c1)\<rparr>))))))"


subsection \<open>The event loop\<close>

text \<open>
  \<open>run\<close> is a \<open>select\<close> in an endless loop, with a deferred function that runs when the
  loop returns. An event is what happens next: one of the three cases of the select fires
  (\<open>TickerC\<close>, \<open>WorkerStateC\<close>, \<open>QuitC\<close>), the operating system delivers a signal to the
  channel \<open>quit\<close>, or a worker handles the next task of the queue. The case of
  \<open>WorkerState\<close> sets the text of the spinner of the worker that sent the message; only
  workers of the interactive mode send, and their ids index the spinners, so the case
  changes nothing but the display.
\<close>

datatype run_event =
    TickerC
  | WorkerStateC int string
  | QuitC
  | Notify signal
  | WorkerTask

datatype action = UiStop | SchedulerStop | TickerStop | Done "crawlerResult list"

text \<open>
  Where the loop stands: still looping; blocked for good in \<open>c.quit <- syscall.SIGQUIT\<close>
  (the buffer is full and the loop itself is the only receiver); ended by \<open>os.Exit\<close>, which
  skips the deferred function; returned, with the calls of the deferred function in order;
  or brought down by a panic of a worker.
\<close>

datatype run_state =
    Looping Crawler
  | SendBlocked Crawler
  | Exited int
  | Returned "action list" Crawler
  | Panicked error

definition deferred :: "Crawler \<Rightarrow> run_state" where
  "deferred c =
     Returned
       ((if CrawlerOptions.Interactive (opts c) then [UiStop] else []) @
        [SchedulerStop, TickerStop, Done (result c)])
       (c\<lparr>scheduler := Stop (scheduler c)\<rparr>)"

fun run_step :: "(string \<Rightarrow> parse_result) \<Rightarrow> run_event \<Rightarrow> Crawler \<Rightarrow> run_state" where
  "run_step P TickerC c =
     (let visitedSize = size_hashSet (visited c); cacheSize = size_hashSet (cache c) in
      if visitedSize \<ge> cacheSize
      then (case chan_send (quit c) SIGQUIT of
              None \<Rightarrow> SendBlocked c
            | Some q \<Rightarrow> Looping (c\<lparr>quit := q\<rparr>))
      else Looping c)"
| "run_step P (WorkerStateC i text) c = Looping c"
| "run_step P QuitC c =
     (case chan_recv (quit c) of
        None \<Rightarrow> Looping c
      | Some (sig, q) \<Rightarrow>
          (if sig \<noteq> SIGQUIT then Exited (signum sig) else deferred (c\<lparr>quit := q\<rparr>)))"
| "run_step P (Notify sig) c = Looping (c\<lparr>quit := chan_notify (quit c) sig\<rparr>)"
| "run_step P WorkerTask c =
     (case dequeue (scheduler c) of
        Inl e \<Rightarrow> Looping c
      | Inr (t, sch) \<Rightarrow>
          (case handler P t (c\<lparr>scheduler := sch\<rparr>) of
             Inl e \<Rightarrow> Panicked e
           | Inr c' \<Rightarrow> Looping c'))"

fun run :: "(string \<Rightarrow> parse_result) \<Rightarrow> run_event list \<Rightarrow> Crawler \<Rightarrow> run_state" where
  "run P [] c = Looping c"
| "run P (ev # evs) c =
     (case run_step P ev c of
        Looping c' \<Rightarrow> run P evs c'
      | st \<Rightarrow> st)"




subsection \<open>Handlers on several workers\<close>

text \<open>
  With more than one worker the statements of concurrent calls of \<open>handler\<close> interleave.
  A frame is one call in progress: the statement it executes next and its local variables.
  Each step is one statement of \<open>handler\<close>; the methods of \<open>hashSet\<close> hold the set's
  lock, so each of them is a single step.
\<close>

datatype frame =
    AtGuard string
  | AtParse string
  | AtAdd string ParserOutput "string option"
  | AtAppend string ParserOutput
  | AtSlice string ParserOutput
  | AtAddSlice string ParserOutput "string list"
  | AtDispatch string ParserOutput

text \<open>
  One statement of a frame. \<open>r\<close> is what the parser answers if the statement is the call
  of \<open>ParseLinks\<close>. The result is the frame that remains, \<open>None\<close> when the call returns.
\<close>

fun frame_step :: "parse_result \<Rightarrow> frame \<Rightarrow> Crawler \<Rightarrow> error + (frame option \<times> Crawler)" where
  "frame_step r (AtGuard input) c =
     (if has (visited c) input then Inr (None, c) else Inr (Some (AtParse input), c))"
| "frame_step r (AtParse input) c = Inr (Some (AtAdd input (fst r) (snd r)), c)"
| "frame_step r (AtAdd input output err) c =
     (case add input (visited c) of
        Inl e \<Rightarrow> Inl e
      | Inr v \<Rightarrow>
          (if err \<noteq> None then Inr (None, c\<lparr>visited := v\<rparr>)
           else Inr (Some (AtAppend input output), c\<lparr>visited := v\<rparr>)))"
| "frame_step r (AtAppend input output) c =
     Inr (Some (AtSlice input output), c\<lparr>result := result c @ [new_result input output]\<rparr>)"
| "frame_step r (AtSlice input output) c =
     Inr (Some (AtAddSlice input output
                  (nonVisited (slice (visited c)) (ParserOutput.Links output))), c)"
| "frame_step r (AtAddSlice input output nonVisitedLinks) c =
     (case addSlice nonVisitedLinks (cache c) of
        Inl e \<Rightarrow> Inl e
      | Inr ca \<Rightarrow> Inr (Some (AtDispatch input output), c\<lparr>cache := ca\<rparr>))"
| "frame_step r (AtDispatch input output) c =
     Inr (None, c\<lparr>scheduler := Dispatch (ParserOutput.Links output) (scheduler c)\<rparr>)"

text \<open>One call run alone, statement by statement, to its return; \<open>None\<close> when \<open>n\<close> steps
  do not reach it.\<close>

fun run_frame :: "parse_result \<Rightarrow> nat \<Rightarrow> frame \<Rightarrow> Crawler \<Rightarrow> (error + Crawler) option" where
  "run_frame r 0 f c = None"
| "run_frame r (Suc n) f c =
     (case frame_step r f c of
        Inl e \<Rightarrow> Some (Inl e)
      | Inr (None, c') \<Rightarrow> Some (Inr c')
      | Inr (Some f', c') \<Rightarrow> run_frame r n f' c')"

text \<open>
  A step of the whole crawl: the dispatch loop hands the head of the queue to a worker, or
  one of the calls in progress executes its next statement, whatever the parser answers.
\<close>

inductive crawl_step :: "Crawler \<times> frame list \<Rightarrow> Crawler \<times> frame list \<Rightarrow> bool" where
  assign:
    "dequeue (scheduler c) = Inr (t, sch) \<Longrightarrow>
     crawl_step (c, fs) (c\<lparr>scheduler := sch\<rparr>, fs @ [AtGuard t])"
| advance:
    "i < length fs \<Longrightarrow> frame_step r (fs ! i) c = Inr (Some f', c') \<Longrightarrow>
     crawl_step (c, fs) (c', fs[i := f'])"
| return:
    "i < length fs \<Longrightarrow> frame_step r (fs ! i) c = Inr (None, c') \<Longrightarrow>
     crawl_step (c, fs) (c', take i fs @ drop (Suc i) fs)"

text \<open>The states a crawl of \<open>url\<close> passes through, from the return of \<open>Dispatch\<close> in \<open>Crawl\<close>.\<close>

inductive reachable ::
  "(string \<Rightarrow> string + string) \<Rightarrow> CrawlerOptions \<Rightarrow> string \<Rightarrow> Crawler \<times> frame list \<Rightarrow> bool"
  for SanitiseUrl :: "string \<Rightarrow> string + string" and os :: CrawlerOptions and url :: string where
  seeded:
    "NewCrawler os = Inr c \<Longrightarrow> Crawl SanitiseUrl url c = Inr c0 \<Longrightarrow>
     reachable SanitiseUrl os url (c0, [])"
| stepped:
    "reachable SanitiseUrl os url st \<Longrightarrow> crawl_step st st' \<Longrightarrow>
     reachable SanitiseUrl os url st'"

subsection \<open>Whole crawls\<close>

text \<open>\<open>main\<close> ends in \<open>crawler.NewCrawler(opts).Crawl(url)\<close>.\<close>

definition start_crawl ::
  "CrawlerOptions \<Rightarrow> (string \<Rightarrow> string + string) \<Rightarrow> string \<Rightarrow> error + Crawler" where
  "start_crawl os SanitiseUrl url = and_then (NewCrawler os) (Crawl SanitiseUrl url)"

definition ok_page :: "string list \<Rightarrow> parse_result" where
  "ok_page links = (\<lparr>ParserOutput.Links = links, Status = ''200 OK'', StatusCode = 200\<rparr>, None)"

definition failed_page :: "string \<Rightarrow> parse_result" where
  "failed_page msg = (\<lparr>ParserOutput.Links = [], Status = [], StatusCode = 0\<rparr>, Some msg)"


text \<open>A site of two pages that link to each other.\<close>

definition site_ab :: "string \<Rightarrow> parse_result" where
  "site_ab u =
     (if u = ''https://a.test'' then ok_page [''https://a.test/b'']
      else if u = ''https://a.test/b'' then ok_page [''https://a.test'']
      else failed_page ''no such host'')"

definition one_worker :: CrawlerOptions where
  "one_worker = \<lparr>CrawlerOptions.MaxWorkers = 1, CrawlerOptions.Interactive = False\<rparr>"





section \<open>Facts about the hash set\<close>

lemma map_ok_Some: "map_ok (Some kvs) k = (k \<in> fst ` set kvs)"
  by (simp add: map_ok_def map_of_eq_None_iff)

lemma map_ok_None: "map_ok None k = False"
  by (simp add: map_ok_def)

lemma map_ok_range: "map_ok m k = (k \<in> set (map_range m))"
  by (cases m) (simp_all add: map_ok_Some map_ok_None map_range_def)

lemma addSlice_loop_Some:
  "\<exists>kvs'. addSlice_loop a (Some kvs) = Inr (Some kvs') \<and>
          fst ` set kvs' = fst ` set kvs \<union> set a \<and>
          (distinct (map fst kvs) \<longrightarrow> distinct (map fst kvs')) \<and>
          (set a \<subseteq> fst ` set kvs \<longrightarrow> kvs' = kvs)"
proof (induction a arbitrary: kvs)
  case Nil
  show ?case by simp
next
  case (Cons t ts)
  show ?case
  proof (cases "t \<in> fst ` set kvs")
    case True
    from Cons.IH [of kvs] obtain kvs' where
      k: "addSlice_loop ts (Some kvs) = Inr (Some kvs')"
         "fst ` set kvs' = fst ` set kvs \<union> set ts"
         "distinct (map fst kvs) \<longrightarrow> distinct (map fst kvs')"
         "set ts \<subseteq> fst ` set kvs \<longrightarrow> kvs' = kvs"
      by blast
    have "addSlice_loop (t # ts) (Some kvs) = Inr (Some kvs')"
      using True k(1) by (simp add: map_ok_Some)
    moreover have "fst ` set kvs' = fst ` set kvs \<union> set (t # ts)"
      using True k(2) by auto
    moreover have "set (t # ts) \<subseteq> fst ` set kvs \<longrightarrow> kvs' = kvs"
      using k(4) by simp
    ultimately show ?thesis
      using k(3) by blast
  next
    case False
    from Cons.IH [of "AList.update t True kvs"] obtain kvs' where
      k: "addSlice_loop ts (Some (AList.update t True kvs)) = Inr (Some kvs')"
         "fst ` set kvs' = fst ` set (AList.update t True kvs) \<union> set ts"
         "distinct (map fst (AList.update t True kvs)) \<longrightarrow> distinct (map fst kvs')"
      by blast
    have d: "fst ` set (AList.update t True kvs) = insert t (fst ` set kvs)"
      using dom_update [of t True kvs] by (simp add: dom_map_of_conv_image_fst)
    from False k d show ?thesis
      by (auto simp: map_ok_Some map_assign_def distinct_update)
  qed
qed

lemma add_Some:
  "data s = Some kvs \<Longrightarrow>
   add t s = Inr (s\<lparr>data := Some (if t \<in> fst ` set kvs then kvs else AList.update t True kvs)\<rparr>)"
  by (simp add: add_def Let_def map_ok_Some map_assign_def)

lemma add_None:
  "data s = None \<Longrightarrow> add t s = Inr (s\<lparr>data := Some [(t, True)]\<rparr>)"
  by (simp add: add_def Let_def make_map_def map_ok_Some map_assign_def)

lemma add_total:
  "\<exists>s'. add t s = Inr s' \<and> data s' \<noteq> None \<and>
        set (slice s') = insert t (set (slice s)) \<and>
        (distinct (slice s) \<longrightarrow> distinct (slice s'))"
proof (cases "data s")
  case None
  then show ?thesis
    by (simp add: add_None slice_def map_range_def)
next
  case (Some kvs)
  have d: "fst ` set (AList.update t True kvs) = insert t (fst ` set kvs)"
    using dom_update [of t True kvs] by (simp add: dom_map_of_conv_image_fst)
  from Some d show ?thesis
    by (auto simp: add_Some slice_def map_range_def distinct_update)
qed

lemma addSlice_total:
  "\<exists>s'. addSlice a s = Inr s' \<and> data s' \<noteq> None \<and>
        set (slice s') = set (slice s) \<union> set a \<and>
        (distinct (slice s) \<longrightarrow> distinct (slice s'))"
proof (cases "data s")
  case None
  from addSlice_loop_Some [of a "[]"] obtain kvs' where
    "addSlice_loop a (Some []) = Inr (Some kvs')" "fst ` set kvs' = set a"
    "distinct (map fst kvs')"
    by auto
  with None show ?thesis
    by (simp add: addSlice_def Let_def make_map_def slice_def map_range_def)
next
  case (Some kvs)
  from addSlice_loop_Some [of a kvs] obtain kvs' where
    "addSlice_loop a (Some kvs) = Inr (Some kvs')" "fst ` set kvs' = fst ` set kvs \<union> set a"
    "distinct (map fst kvs) \<longrightarrow> distinct (map fst kvs')"
    by auto
  with Some show ?thesis
    by (auto simp: addSlice_def Let_def slice_def map_range_def)
qed

lemma has_slice: "has s x = (x \<in> set (slice s))"
  by (simp add: has_def slice_def map_ok_range)

lemma size_slice: "size_hashSet s = length (slice s)"
  by (cases "data s") (simp_all add: size_hashSet_def slice_def map_len_def map_range_def)







lemma run_calls_total:
  "\<exists>s'. run_calls cs s = Inr s' \<and>
        set (slice s') = set (slice s) \<union> set (concat (map call_items cs))"
proof (induction cs arbitrary: s)
  case Nil
  show ?case by simp
next
  case (Cons c cs)
  have "\<exists>s1. run_call c s = Inr s1 \<and> set (slice s1) = set (slice s) \<union> set (call_items c)"
  proof (cases c)
    case (Add t)
    with add_total [of t s] show ?thesis by auto
  next
    case (AddAll a)
    with addSlice_total [of a s] show ?thesis by auto
  qed
  then obtain s1 where
    s1: "run_call c s = Inr s1" "set (slice s1) = set (slice s) \<union> set (call_items c)"
    by blast
  from Cons.IH [of s1] obtain s' where
    "run_calls cs s1 = Inr s'"
    "set (slice s') = set (slice s1) \<union> set (concat (map call_items cs))"
    by blast
  with s1 show ?case
    by (auto simp: and_then_def)
qed

section \<open>Claims about the hash set\<close>



text \<open>
  C9. After any sequence of \<open>add\<close> and \<open>addSlice\<close> calls on a set, started from any
  state, the sequence runs to its end without a panic and \<open>has\<close> is true of every item
  that one of the calls passed.
\<close>

theorem has_after_inserts:
  "x \<in> set (concat (map call_items cs)) \<Longrightarrow>
   \<exists>s'. run_calls cs s = Inr s' \<and> has s' x"
  using run_calls_total [of cs s] by (auto simp: has_slice)

theorem has_after_inserts_witness:
  "''b'' \<in> set (concat (map call_items [Add ''a'', AddAll [''b'', ''c''], Add ''a''])) \<and>
   (\<exists>s'. run_calls [Add ''a'', AddAll [''b'', ''c''], Add ''a''] zero_hashSet = Inr s' \<and>
         has s' ''b'')"
proof -
  have h: "''b'' \<in> set (concat (map call_items [Add ''a'', AddAll [''b'', ''c''], Add ''a'']))"
    by simp
  from has_after_inserts [OF h, of zero_hashSet] h show ?thesis
    by blast
qed

text \<open>
  C10. On the zero value of \<open>hashSet\<close> (a nil map) \<open>has\<close> is false, \<open>size\<close> is 0 and
  \<open>slice\<close> is empty. A direct write to the nil map would panic, but \<open>add\<close> and
  \<open>addSlice\<close> allocate the map first: \<open>add\<close> returns the one-element set, \<open>addSlice\<close>
  returns a set holding exactly the given items, and from any state at all neither of the
  two ever panics.
\<close>

theorem zero_value_total:
  "has zero_hashSet x = False \<and>
   size_hashSet zero_hashSet = 0 \<and>
   slice zero_hashSet = [] \<and>
   map_assign (data zero_hashSet) t True = Inl NilMapAssignment \<and>
   add t zero_hashSet = Inr \<lparr>data = Some [(t, True)]\<rparr> \<and>
   (\<exists>s'. addSlice a zero_hashSet = Inr s' \<and> (\<forall>y. has s' y = (y \<in> set a)) \<and>
         size_hashSet s' = card (set a) \<and> set (slice s') = set a) \<and>
   (\<exists>s'. add t s = Inr s') \<and> (\<exists>s'. addSlice a s = Inr s')"
proof -
  from addSlice_total [of a zero_hashSet] obtain s' where
    s': "addSlice a zero_hashSet = Inr s'" "set (slice s') = set a" "distinct (slice s')"
    by (auto simp: zero_hashSet_def slice_def map_range_def)
  have "size_hashSet s' = card (set a)"
    using s'(2,3) distinct_card [of "slice s'"] by (simp add: size_slice)
  with s' have "\<exists>s'. addSlice a zero_hashSet = Inr s' \<and> (\<forall>y. has s' y = (y \<in> set a)) \<and>
         size_hashSet s' = card (set a) \<and> set (slice s') = set a"
    by (auto simp: has_slice)
  moreover have "\<exists>s'. add t s = Inr s'"
    using add_total [of t s] by blast
  moreover have "\<exists>s'. addSlice a s = Inr s'"
    using addSlice_total [of a s] by blast
  ultimately show ?thesis
    by (simp add: zero_hashSet_def has_def map_ok_def size_hashSet_def map_len_def
        slice_def map_range_def map_assign_def add_None)
qed

section \<open>Facts about the scheduler\<close>

lemma Dispatch_eq: "Dispatch tasks s = s\<lparr>inputQueue := inputQueue s @ tasks\<rparr>"
proof (induction tasks arbitrary: s)
  case Nil
  show ?case by (simp add: Dispatch_def)
next
  case (Cons t ts)
  have "Dispatch (t # ts) s = Dispatch ts (enqueue t s)"
    by (simp add: Dispatch_def)
  also have "\<dots> = (enqueue t s)\<lparr>inputQueue := inputQueue (enqueue t s) @ ts\<rparr>"
    by (rule Cons.IH)
  also have "\<dots> = s\<lparr>inputQueue := inputQueue s @ t # ts\<rparr>"
    by (simp add: enqueue_def enqueue_store_def enqueue_load_def)
  finally show ?case .
qed

lemma NewScheduler_eq:
  "NewScheduler os =
     (if SchedulerOptions.MaxWorkers os < 0 then Inl ChanSizeOutOfRange
      else Inr \<lparr>WorkerState = \<lparr>cap = nat (SchedulerOptions.MaxWorkers os), buf = []\<rparr>,
                workers = [],
                workerPool = \<lparr>cap = nat (SchedulerOptions.MaxWorkers os), buf = []\<rparr>,
                Scheduler.quit = False, handler = None, inputQueue = [],
                Scheduler.opts = os\<rparr>)"
  by (simp add: NewScheduler_def make_chan_def)

lemma NewCrawler_eq:
  "NewCrawler os =
     (if CrawlerOptions.MaxWorkers os < 0 then Inl ChanSizeOutOfRange
      else Inr \<lparr>scheduler =
                  WithHandler ()
                    \<lparr>WorkerState = \<lparr>cap = nat (CrawlerOptions.MaxWorkers os), buf = []\<rparr>,
                     workers = [],
                     workerPool = \<lparr>cap = nat (CrawlerOptions.MaxWorkers os), buf = []\<rparr>,
                     Scheduler.quit = False, handler = None, inputQueue = [],
                     Scheduler.opts =
                       \<lparr>SchedulerOptions.MaxWorkers = CrawlerOptions.MaxWorkers os,
                        SchedulerOptions.Interactive = CrawlerOptions.Interactive os\<rparr>\<rparr>,
                cache = zero_hashSet, visited = zero_hashSet, Crawler.opts = os,
                result = [], Crawler.quit = \<lparr>cap = 1, buf = []\<rparr>\<rparr>)"
  by (simp add: NewCrawler_def NewScheduler_eq make_chan_def)

section \<open>Claims about the scheduler\<close>

text \<open>
  C2. \<open>Dispatch\<close> appends the given tasks to the input queue, in order, when nothing
  runs between its statements. It takes no lock (only \<open>dequeue\<close> locks
  \<open>inputQueueLock\<close>), so two handlers that reach \<open>Dispatch\<close> together are not
  synchronised: when both read the queue before either writes it back, the task of the one
  that writes first is lost, although run one after the other the two calls would have
  queued both tasks.
\<close>

theorem Dispatch_race_loses_task:
  "inputQueue (Dispatch tasks s) = inputQueue s @ tasks \<and>
   inputQueue (Dispatch [b] (Dispatch [a] s)) = inputQueue s @ [a, b] \<and>
   run_schedule [0, 0, 1, 1] ([in_Dispatch [a], in_Dispatch [b]], s) =
     ([in_Dispatch [], in_Dispatch []], s\<lparr>inputQueue := inputQueue s @ [a, b]\<rparr>) \<and>
   run_schedule [0, 1, 0, 1] ([in_Dispatch [a], in_Dispatch [b]], s) =
     ([in_Dispatch [], in_Dispatch []], s\<lparr>inputQueue := inputQueue s @ [b]\<rparr>)"
  by (simp add: Dispatch_eq in_Dispatch_def producer_step_def enqueue_load_def
      enqueue_store_def)




section \<open>Facts about the handler\<close>


lemma handler_guard: "has (visited c) input \<Longrightarrow> handler P input c = Inr c"
  by (simp add: handler_def)




section \<open>Evaluating whole crawls\<close>


lemma start_crawl_eq:
  "start_crawl os S url =
     (if CrawlerOptions.MaxWorkers os < 0 then Inl ChanSizeOutOfRange
      else case S url of
        Inl msg \<Rightarrow> Inl (SanitiseFailed msg)
      | Inr input \<Rightarrow>
         Inr \<lparr>scheduler =
                \<lparr>WorkerState = \<lparr>cap = nat (CrawlerOptions.MaxWorkers os), buf = []\<rparr>,
                 workers = map (\<lambda>i. newWorker (int i) (CrawlerOptions.Interactive os))
                             [0 ..< nat (CrawlerOptions.MaxWorkers os)],
                 workerPool = \<lparr>cap = nat (CrawlerOptions.MaxWorkers os), buf = []\<rparr>,
                 Scheduler.quit = False, handler = Some (), inputQueue = [input],
                 Scheduler.opts =
                   \<lparr>SchedulerOptions.MaxWorkers = CrawlerOptions.MaxWorkers os,
                    SchedulerOptions.Interactive = CrawlerOptions.Interactive os\<rparr>\<rparr>,
              cache = \<lparr>data = Some [(input, True)]\<rparr>, visited = \<lparr>data = None\<rparr>,
              Crawler.opts = os, result = [], Crawler.quit = \<lparr>cap = 1, buf = []\<rparr>\<rparr>)"
  by (simp add: start_crawl_def NewCrawler_eq and_then_def Crawl_def Start_def WithHandler_def
      zero_hashSet_def add_None Dispatch_eq split: sum.splits)

lemmas eval_defs = handler_def Let_def has_def map_ok_Some map_ok_None add_def make_map_def
  map_assign_def addSlice_def slice_def map_range_def size_hashSet_def map_len_def Dispatch_eq
  dequeue_def new_result_def ok_page_def failed_page_def chan_send_def chan_recv_def
  deferred_def Stop_def

section \<open>Facts about the event loop\<close>





section \<open>Facts about interleaved handlers\<close>

text \<open>The seven statements of a frame, run without interruption, are \<open>handler\<close>.\<close>

lemma handler_frames:
  "run_frame (P input) (Suc (Suc (Suc (Suc (Suc (Suc (Suc 0))))))) (AtGuard input) c =
     Some (handler P input c)"
proof (cases "has (visited c) input")
  case True
  then show ?thesis by (simp add: handler_guard)
next
  case False
  obtain out err where p: "P input = (out, err)"
    by (cases "P input")
  from add_total [of input "visited c"] obtain v where v: "add input (visited c) = Inr v"
    by blast
  show ?thesis
  proof (cases err)
    case None
    from addSlice_total [of "nonVisited (slice v) (ParserOutput.Links out)" "cache c"]
    obtain ca where
      ca: "addSlice (nonVisited (slice v) (ParserOutput.Links out)) (cache c) = Inr ca"
      by blast
    from False p None v ca show ?thesis
      by (simp add: handler_def Let_def)
  next
    case (Some msg)
    from False p Some v show ?thesis
      by (simp add: handler_def)
  qed
qed







section \<open>Claims about the handler and the crawl\<close>

text \<open>
  C1. On the site of two pages that link to each other, the handler of the second page
  \<open>/b\<close> runs after the seed is completed. Its fetch succeeds with the one link back to
  the seed. The links not in the snapshot of \<open>visited\<close> are none, and \<open>cache\<close> keeps its
  elements, yet the handler dispatches the seed again: \<open>Dispatch\<close> is given all the links
  of the page, not the subset \<open>nonVisitedLinks\<close> computed for it.
\<close>

theorem handler_dispatches_completed_link:
  "\<exists>c0 c1 c2. start_crawl one_worker Inr ''https://a.test'' = Inr c0 \<and>
     run site_ab [WorkerTask] c0 = Looping c1 \<and>
     dequeue (scheduler c1) = Inr (''https://a.test/b'', (scheduler c1)\<lparr>inputQueue := []\<rparr>) \<and>
     handler site_ab ''https://a.test/b'' (c1\<lparr>scheduler := (scheduler c1)\<lparr>inputQueue := []\<rparr>\<rparr>) =
       Inr c2 \<and>
     map URL (result c2) = [''https://a.test'', ''https://a.test/b''] \<and>
     slice (visited c2) = [''https://a.test'', ''https://a.test/b''] \<and>
     nonVisited (slice (visited c2)) (ParserOutput.Links (fst (site_ab ''https://a.test/b''))) = [] \<and>
     slice (cache c2) = slice (cache c1) \<and>
     inputQueue (scheduler c2) = [''https://a.test'']"
  by (simp add: start_crawl_eq one_worker_def site_ab_def eval_defs)




section \<open>Claims about the event loop and the sets\<close>





end
